theory Spec2Isabelle
  imports Main "HOL-Library.Word" "HOL-Library.AList" "HOL-Library.Sublist"
begin

unbundle bit_operations_syntax

section \<open>Strings, octet classes and the scanners of transports.go\<close>

text \<open>
  A Go \<open>string\<close> is a sequence of bytes and is indexed by byte; it is modelled by
  \<^typ>\<open>string\<close>, whose characters are the 256 byte values.  A run-time panic of the
  Go program (here only an index out of range) is a value of its own.
\<close>

datatype panic = IndexOutOfRange

definition dquote :: char where
  "dquote = CHR 0x22"

definition backslash :: char where
  "backslash = CHR 0x5C"

definition separators :: string where
  \<comment> \<open>the literal \<open>" \t\"(),/:;<=>?@[]\\{}"\<close> of \<open>init\<close>\<close>
  "separators = [CHR '' '', CHR 0x09, CHR 0x22, CHR ''('', CHR '')'', CHR '','', CHR ''/'',
     CHR '':'', CHR '';'', CHR ''<'', CHR ''='', CHR ''>'', CHR ''?'', CHR ''@'', CHR ''['',
     CHR '']'', CHR 0x5C, CHR ''{'', CHR ''}'']"

definition spaces :: string where
  \<comment> \<open>the literal \<open>" \t\r\n"\<close> of \<open>init\<close>\<close>
  "spaces = [CHR '' '', CHR 0x09, CHR 0x0D, CHR 0x0A]"

type_synonym octetType = "8 word"

definition isToken :: octetType where
  "isToken = push_bit 0 1"

definition isSpace :: octetType where
  "isSpace = push_bit 1 1"

definition octetTypes :: "char \<Rightarrow> octetType" where
  \<comment> \<open>the table filled by \<open>init\<close>, read at the byte \<open>ch\<close>\<close>
  "octetTypes ch =
     (let c = (of_char ch :: nat);
          isCtl = (c \<le> 31 \<or> c = 127);
          isChar = (0 \<le> c \<and> c \<le> 127);
          isSeparator = (ch \<in> set separators);
          t0 = (0 :: octetType);
          t1 = (if ch \<in> set spaces then t0 OR isSpace else t0);
          t2 = (if isChar \<and> \<not> isCtl \<and> \<not> isSeparator then t1 OR isToken else t1)
      in t2)"

definition ToLower_char :: "char \<Rightarrow> char" where
  "ToLower_char ch =
     (let c = (of_char ch :: nat) in if 65 \<le> c \<and> c \<le> 90 then char_of (c + 32) else ch)"

definition ToLower :: "string \<Rightarrow> string" where
  \<comment> \<open>\<open>strings.ToLower\<close>; the program applies it to tokens only, which are ASCII\<close>
  "ToLower s = map ToLower_char s"

definition HasPrefix :: "string \<Rightarrow> string \<Rightarrow> bool" where
  \<comment> \<open>\<open>strings.HasPrefix(s, p)\<close>\<close>
  "HasPrefix s p = (take (length p) s = p)"

function skipSpace_index :: "string \<Rightarrow> nat \<Rightarrow> nat" where
  "skipSpace_index s i =
     (if i < length s
      then (if octetTypes (s ! i) AND isSpace = 0 then i else skipSpace_index s (i + 1))
      else i)"
  by pat_completeness auto
termination
  by (relation "measure (\<lambda>(s, i). length s - i)") auto

declare skipSpace_index.simps [simp del]

definition skipSpace :: "string \<Rightarrow> string" where
  "skipSpace s = drop (skipSpace_index s 0) s"

function expectToken_index :: "string \<Rightarrow> nat \<Rightarrow> nat" where
  "expectToken_index s i =
     (if i < length s
      then (if octetTypes (s ! i) AND isToken = 0 then i else expectToken_index s (i + 1))
      else i)"
  by pat_completeness auto
termination
  by (relation "measure (\<lambda>(s, i). length s - i)") auto

declare expectToken_index.simps [simp del]

definition expectToken :: "string \<Rightarrow> string \<times> string" where
  "expectToken s = (let i = expectToken_index s 0 in (take i s, drop i s))"

definition copy_bytes :: "string \<Rightarrow> string \<Rightarrow> string \<times> nat" where
  \<comment> \<open>Go's \<open>copy(dst, src)\<close>: the new \<open>dst\<close> and the number of bytes copied\<close>
  "copy_bytes dst src =
     (let n = min (length dst) (length src) in (take n src @ drop n dst, n))"

function quoted_escape_loop ::
  "string \<Rightarrow> string \<Rightarrow> nat \<Rightarrow> bool \<Rightarrow> nat \<Rightarrow> panic + (string \<times> string)" where
  "quoted_escape_loop s p j escape i =
     (if i < length s
      then (let b = s ! i in
            if escape
            then (if j < length p
                  then quoted_escape_loop s (p[j := b]) (j + 1) False (i + 1)
                  else Inl IndexOutOfRange)
            else if b = backslash
            then quoted_escape_loop s p j True (i + 1)
            else if b = dquote
            then Inr (take j p, drop (i + 1) s)
            else (if j < length p
                  then quoted_escape_loop s (p[j := b]) (j + 1) escape (i + 1)
                  else Inl IndexOutOfRange))
      else Inr ([], []))"
  by pat_completeness auto
termination
  by (relation "measure (\<lambda>(s, p, j, escape, i). length s - i)") auto

declare quoted_escape_loop.simps [simp del]

function quoted_loop :: "string \<Rightarrow> nat \<Rightarrow> panic + (string \<times> string)" where
  "quoted_loop s i =
     (if i < length s
      then (if s ! i = dquote
            then Inr (take i s, drop (i + 1) s)
            else if s ! i = backslash
            then (let p0 = replicate (length s - 1) (CHR 0x00);
                      (p, j) = copy_bytes p0 (take i s)
                  in quoted_escape_loop s p j True (i + i))
            else quoted_loop s (i + 1))
      else Inr ([], []))"
  by pat_completeness auto
termination
  by (relation "measure (\<lambda>(s, i). length s - i)") auto

declare quoted_loop.simps [simp del]

definition expectTokenOrQuoted :: "string \<Rightarrow> panic + (string \<times> string)" where
  "expectTokenOrQuoted s =
     (if \<not> HasPrefix s [dquote] then Inr (expectToken s) else quoted_loop (drop 1 s) 0)"

section \<open>Facts about the scanners\<close>

text \<open>The two bits of the table as predicates, and the index loops as list functions.\<close>

definition tokenOctet :: "char \<Rightarrow> bool" where
  "tokenOctet c = (octetTypes c AND isToken \<noteq> 0)"

definition spaceOctet :: "char \<Rightarrow> bool" where
  "spaceOctet c = (octetTypes c AND isSpace \<noteq> 0)"

lemma tokenOctet_iff:
  "tokenOctet ch \<longleftrightarrow>
     ((of_char ch :: nat) \<le> 127 \<and> \<not> ((of_char ch :: nat) \<le> 31 \<or> (of_char ch :: nat) = 127) \<and>
      ch \<notin> set separators)"
  unfolding tokenOctet_def octetTypes_def isToken_def isSpace_def Let_def
  by (auto simp: spaces_def separators_def)

lemma spaceOctet_iff: "spaceOctet ch \<longleftrightarrow> ch \<in> set spaces"
  unfolding spaceOctet_def octetTypes_def isToken_def isSpace_def Let_def
  by auto

lemma expectToken_index_takeWhile:
  "i \<le> length s \<Longrightarrow> expectToken_index s i = i + length (takeWhile tokenOctet (drop i s))"
proof (induction s i rule: expectToken_index.induct)
  case (1 s i)
  show ?case
  proof (cases "i < length s")
    case True
    then have d: "drop i s = s ! i # drop (Suc i) s"
      by (simp add: Cons_nth_drop_Suc)
    show ?thesis
    proof (cases "octetTypes (s ! i) AND isToken = 0")
      case z: True
      then show ?thesis using True d
        by (subst expectToken_index.simps) (simp add: tokenOctet_def)
    next
      case nz: False
      have "expectToken_index s (i + 1) = (i + 1) + length (takeWhile tokenOctet (drop (i + 1) s))"
        using "1.IH" [OF True nz] True by simp
      then show ?thesis using True nz d
        by (subst expectToken_index.simps) (simp add: tokenOctet_def)
    qed
  next
    case False
    with "1.prems" show ?thesis
      by (subst expectToken_index.simps) simp
  qed
qed

lemma expectToken_eq: "expectToken s = (takeWhile tokenOctet s, dropWhile tokenOctet s)"
proof -
  have i: "expectToken_index s 0 = length (takeWhile tokenOctet s)"
    using expectToken_index_takeWhile [of 0 s] by simp
  have "take (length (takeWhile tokenOctet s)) s = takeWhile tokenOctet s"
    by (metis append_eq_conv_conj takeWhile_dropWhile_id)
  moreover have "drop (length (takeWhile tokenOctet s)) s = dropWhile tokenOctet s"
    by (metis append_eq_conv_conj takeWhile_dropWhile_id)
  ultimately show ?thesis
    by (simp add: expectToken_def i)
qed

lemma skipSpace_index_takeWhile:
  "i \<le> length s \<Longrightarrow> skipSpace_index s i = i + length (takeWhile spaceOctet (drop i s))"
proof (induction s i rule: skipSpace_index.induct)
  case (1 s i)
  show ?case
  proof (cases "i < length s")
    case True
    then have d: "drop i s = s ! i # drop (Suc i) s"
      by (simp add: Cons_nth_drop_Suc)
    show ?thesis
    proof (cases "octetTypes (s ! i) AND isSpace = 0")
      case z: True
      then show ?thesis using True d
        by (subst skipSpace_index.simps) (simp add: spaceOctet_def)
    next
      case nz: False
      have "skipSpace_index s (i + 1) = (i + 1) + length (takeWhile spaceOctet (drop (i + 1) s))"
        using "1.IH" [OF True nz] True by simp
      then show ?thesis using True nz d
        by (subst skipSpace_index.simps) (simp add: spaceOctet_def)
    qed
  next
    case False
    with "1.prems" show ?thesis
      by (subst skipSpace_index.simps) simp
  qed
qed

lemma skipSpace_eq: "skipSpace s = dropWhile spaceOctet s"
proof -
  have "skipSpace_index s 0 = length (takeWhile spaceOctet s)"
    using skipSpace_index_takeWhile [of 0 s] by simp
  moreover have "drop (length (takeWhile spaceOctet s)) s = dropWhile spaceOctet s"
    by (metis append_eq_conv_conj takeWhile_dropWhile_id)
  ultimately show ?thesis
    by (simp add: skipSpace_def)
qed

lemma quoted_escape_loop_rest:
  "quoted_escape_loop s p j escape i = Inr (v, r) \<Longrightarrow> length r \<le> length s"
proof (induction s p j escape i arbitrary: v r rule: quoted_escape_loop.induct)
  case (1 s p j escape i)
  show ?case
  proof (cases "i < length s")
    case False
    with "1.prems" show ?thesis
      by (subst (asm) quoted_escape_loop.simps) simp
  next
    case True
    note lt = True
    show ?thesis
    proof (cases escape)
      case True
      with "1.prems" lt have j: "j < length p"
        and run: "quoted_escape_loop s (p[j := s ! i]) (j + 1) False (i + 1) = Inr (v, r)"
        by (subst (asm) quoted_escape_loop.simps, simp split: if_splits)+
      from "1.IH"(1) [OF lt refl True j run] show ?thesis .
    next
      case False
      note ne = False
      show ?thesis
      proof (cases "s ! i = backslash")
        case True
        with "1.prems" lt ne
        have run: "quoted_escape_loop s p j True (i + 1) = Inr (v, r)"
          by (subst (asm) quoted_escape_loop.simps) simp
        from "1.IH"(2) [OF lt refl ne True run] show ?thesis .
      next
        case False
        note nb = False
        show ?thesis
        proof (cases "s ! i = dquote")
          case True
          with "1.prems" lt ne nb have "r = drop (i + 1) s"
            by (subst (asm) quoted_escape_loop.simps) simp
          then show ?thesis by simp
        next
          case False
          with "1.prems" lt ne nb have j: "j < length p"
            and run: "quoted_escape_loop s (p[j := s ! i]) (j + 1) escape (i + 1) = Inr (v, r)"
            by (subst (asm) quoted_escape_loop.simps, simp split: if_splits)+
          from "1.IH"(3) [OF lt refl ne nb False j run] show ?thesis .
        qed
      qed
    qed
  qed
qed

lemma quoted_loop_rest: "quoted_loop s i = Inr (v, r) \<Longrightarrow> length r \<le> length s"
proof (induction s i arbitrary: v r rule: quoted_loop.induct)
  case (1 s i)
  show ?case
  proof (cases "i < length s")
    case False
    with "1.prems" show ?thesis
      by (subst (asm) quoted_loop.simps) simp
  next
    case True
    note lt = True
    show ?thesis
    proof (cases "s ! i = dquote")
      case True
      with "1.prems" lt have "r = drop (i + 1) s"
        by (subst (asm) quoted_loop.simps) simp
      then show ?thesis by simp
    next
      case False
      note nq = False
      show ?thesis
      proof (cases "s ! i = backslash")
        case True
        with "1.prems" lt nq obtain p j where
          "quoted_escape_loop s p j True (i + i) = Inr (v, r)"
          by (subst (asm) quoted_loop.simps) (auto simp: Let_def split: prod.splits)
        then show ?thesis by (rule quoted_escape_loop_rest)
      next
        case False
        with "1.prems" lt nq have run: "quoted_loop s (i + 1) = Inr (v, r)"
          by (subst (asm) quoted_loop.simps) simp
        from "1.IH" [OF lt nq False run] show ?thesis .
      qed
    qed
  qed
qed

lemma expectTokenOrQuoted_rest:
  "expectTokenOrQuoted s = Inr (v, r) \<Longrightarrow> length r \<le> length s"
  by (auto simp: expectTokenOrQuoted_def expectToken_eq length_dropWhile_le
      split: if_splits dest!: quoted_loop_rest)


lemma paramsLoop_decreases:
  assumes "HasPrefix s '',''"
    and "(pkey, s1) = expectToken (skipSpace (drop 1 s))"
    and "expectTokenOrQuoted (drop 1 s1) = Inr (pvalue, s2)"
  shows "length (skipSpace s2) < length s"
proof -
  from assms(1) have s: "s \<noteq> []"
    by (auto simp: HasPrefix_def)
  from assms(2) have "s1 = dropWhile tokenOctet (dropWhile spaceOctet (drop 1 s))"
    by (simp add: expectToken_eq skipSpace_eq)
  then have "length s1 \<le> length (drop 1 s)"
    by (metis length_dropWhile_le order_trans)
  moreover from assms(3) have "length s2 \<le> length (drop 1 s1)"
    by (rule expectTokenOrQuoted_rest)
  moreover have "length (skipSpace s2) \<le> length s2"
    by (simp add: skipSpace_eq length_dropWhile_le)
  ultimately show ?thesis using s
    by (cases s) auto
qed

section \<open>The Challenge Parser\<close>

text \<open>
  A Go \<open>map[string]string\<close> is modelled by an association list with distinct keys:
  \<open>params[k] = v\<close> is \<^const>\<open>AList.update\<close>, a read is \<^const>\<open>map_of\<close> with the
  empty string for a missing key.
\<close>

type_synonym params = "(string \<times> string) list"

function paramsLoop :: "string \<Rightarrow> params \<Rightarrow> panic + params" where
  "paramsLoop s params =
     (if HasPrefix s '','' then
        (case expectToken (skipSpace (drop 1 s)) of (pkey, s1) \<Rightarrow>
           if pkey = [] then Inr params
           else if \<not> HasPrefix s1 ''='' then Inr params
           else (case expectTokenOrQuoted (drop 1 s1) of
                   Inl e \<Rightarrow> Inl e
                 | Inr (pvalue, s2) \<Rightarrow>
                     if pvalue = [] then Inr params
                     else paramsLoop (skipSpace s2) (AList.update (ToLower pkey) pvalue params)))
      else Inr params)"
  by pat_completeness auto
termination
  by (relation "measure (\<lambda>(s, params). length s)") (auto dest: paramsLoop_decreases)

declare paramsLoop.simps [simp del]

definition parseValueAndParams :: "string \<Rightarrow> panic + (string \<times> params)" where
  "parseValueAndParams header =
     (case expectToken header of (v, s) \<Rightarrow>
        if v = [] then Inr (v, [])
        else (case paramsLoop ('','' @ skipSpace s) [] of
                Inl e \<Rightarrow> Inl e
              | Inr params \<Rightarrow> Inr (ToLower v, params)))"

record authChallenge =
  Scheme :: string
  Parameters :: params

fun parseAuthHeader_loop :: "string list \<Rightarrow> authChallenge list \<Rightarrow> panic + authChallenge list" where
  "parseAuthHeader_loop [] challenges = Inr challenges"
| "parseAuthHeader_loop (h # hs) challenges =
     (case parseValueAndParams h of
        Inl e \<Rightarrow> Inl e
      | Inr (v, p) \<Rightarrow>
          parseAuthHeader_loop hs
            (if v \<noteq> [] then challenges @ [\<lparr>Scheme = v, Parameters = p\<rparr>] else challenges))"

section \<open>HTTP values and the standard library\<close>

text \<open>
  \<open>http.Header\<close> and \<open>url.Values\<close> are Go maps from a key to a list of values; they are
  association lists here.  Every header key the program uses is already in canonical form
  (\<open>http.CanonicalHeaderKey("WWW-Authenticate")\<close> is \<open>Www-Authenticate\<close>).
\<close>

type_synonym header = "(string \<times> string list) list"

definition Header_Values :: "header \<Rightarrow> string \<Rightarrow> string list" where
  \<comment> \<open>\<open>header[key]\<close>\<close>
  "Header_Values h k = (case map_of h k of None \<Rightarrow> [] | Some vs \<Rightarrow> vs)"

definition Header_Get :: "header \<Rightarrow> string \<Rightarrow> string" where
  \<comment> \<open>\<open>header.Get(key)\<close>: the first value, or the empty string\<close>
  "Header_Get h k = (case Header_Values h k of [] \<Rightarrow> [] | v # _ \<Rightarrow> v)"

definition Header_Set :: "header \<Rightarrow> string \<Rightarrow> string \<Rightarrow> header" where
  \<comment> \<open>\<open>header.Set(key, value)\<close>\<close>
  "Header_Set h k v = AList.update k [v] h"

definition Values_Set :: "header \<Rightarrow> string \<Rightarrow> string \<Rightarrow> header" where
  \<comment> \<open>\<open>url.Values.Set(key, value)\<close>\<close>
  "Values_Set q k v = AList.update k [v] q"

datatype error =
    HttpError string string
  | LibError string
  | UrlError error

text \<open>
  \<open>HttpError\<close> is the program's own error (status, URL).  \<open>LibError\<close> stands for any error
  value produced by the standard library or the network, \<open>UrlError\<close> for the \<open>*url.Error\<close>
  in which \<open>http.Client.Do\<close> wraps the error of its transport.
\<close>

record request =
  Method :: string
  URL :: string
  Header :: header
  ReqBody :: "string option"

record response =
  StatusCode :: int
  Status :: string
  RespHeader :: header
  Body :: "error + string"

text \<open>
  A \<open>*url.URL\<close> is represented by its \<open>String()\<close> form.  The library functions the program
  calls on URLs and on the token body are parameters of the model: \<open>url_Parse\<close> is
  \<open>url.Parse\<close> (also the parse inside \<open>http.NewRequest\<close>), \<open>url_Query\<close> is
  \<open>URL.Query()\<close>, \<open>url_setRawQuery u q\<close> is \<open>u\<close> after \<open>u.RawQuery = q\<close>,
  \<open>Values_Encode\<close> is \<open>Values.Encode()\<close>, and \<open>json_Decode_token\<close> decodes the body of the
  token response into \<open>authToken\<close> and returns its \<open>Token\<close> field.  \<open>Body\<close> of a response is
  what reading the body to its end gives.
\<close>

record stdlib =
  url_Parse :: "string \<Rightarrow> error + string"
  url_Query :: "string \<Rightarrow> header"
  url_setRawQuery :: "string \<Rightarrow> string \<Rightarrow> string"
  Values_Encode :: "header \<Rightarrow> string"
  json_Decode_token :: "error + string \<Rightarrow> error + string"

definition NewRequest :: "stdlib \<Rightarrow> string \<Rightarrow> string \<Rightarrow> string option \<Rightarrow> error + request" where
  \<comment> \<open>\<open>http.NewRequest(method, url, body)\<close> for the methods GET and PUT\<close>
  "NewRequest lib method url body =
     (case url_Parse lib url of
        Inl e \<Rightarrow> Inl e
      | Inr u \<Rightarrow> Inr \<lparr>Method = method, URL = u, Header = [], ReqBody = body\<rparr>)"

definition b64chars :: string where
  "b64chars = ''ABCDEFGHIJKLMNOPQRSTUVWXYZabcdefghijklmnopqrstuvwxyz0123456789+/''"

fun base64_octets :: "nat list \<Rightarrow> string" where
  "base64_octets [] = []"
| "base64_octets [a] =
     [b64chars ! (a div 4), b64chars ! ((a mod 4) * 16), CHR ''='', CHR ''='']"
| "base64_octets [a, b] =
     [b64chars ! (a div 4), b64chars ! ((a mod 4) * 16 + b div 16),
      b64chars ! ((b mod 16) * 4), CHR ''='']"
| "base64_octets (a # b # c # rest) =
     [b64chars ! (a div 4), b64chars ! ((a mod 4) * 16 + b div 16),
      b64chars ! ((b mod 16) * 4 + c div 64), b64chars ! (c mod 64)] @ base64_octets rest"

definition base64_EncodeToString :: "string \<Rightarrow> string" where
  \<comment> \<open>\<open>base64.StdEncoding.EncodeToString\<close>\<close>
  "base64_EncodeToString s = base64_octets (map of_char s)"

definition SetBasicAuth :: "request \<Rightarrow> string \<Rightarrow> string \<Rightarrow> request" where
  \<comment> \<open>\<open>req.SetBasicAuth(username, password)\<close>\<close>
  "SetBasicAuth req username password =
     req\<lparr>Header := Header_Set (Header req) ''Authorization''
       (''Basic '' @ base64_EncodeToString (username @ '':'' @ password))\<rparr>"

text \<open>
  A request is the value of its fields when it is sent.  The body of a request is the
  bytes it was built with: how much of it a round trip has read is not part of the model.
\<close>

text \<open>
  A call of \<open>RoundTrip\<close> returns a pair \<open>(resp, err)\<close> of which either may be \<open>nil\<close>, or it
  panics.  The network is the innermost transport (\<open>http.DefaultTransport\<close>): its reply
  to a request may depend on everything sent before, and the state that is threaded through
  the model is the list of the requests it has been sent.
\<close>

type_synonym reply = "response option \<times> error option"

datatype 'a outcome = Panicked panic | Returned 'a

type_synonym server = "request list \<Rightarrow> request \<Rightarrow> reply"

definition base_RoundTrip :: "server \<Rightarrow> request \<Rightarrow> request list \<Rightarrow> reply outcome \<times> request list" where
  "base_RoundTrip srv req sent = (Returned (srv sent req), sent @ [req])"

definition Client_Do ::
  "(request \<Rightarrow> request list \<Rightarrow> reply outcome \<times> request list) \<Rightarrow> request \<Rightarrow> request list \<Rightarrow>
     (error + response) outcome \<times> request list" where
  \<comment> \<open>\<open>http.Client{Transport: rt}.Do(req)\<close>, for an exchange without redirects: one round
      trip; an error of the transport is wrapped, a reply without response is an error\<close>
  "Client_Do rt req sent =
     (case rt req sent of
        (Panicked p, sent') \<Rightarrow> (Panicked p, sent')
      | (Returned (resp, err), sent') \<Rightarrow>
          (case err of
             Some e \<Rightarrow> (Returned (Inl (UrlError e)), sent')
           | None \<Rightarrow>
               (case resp of
                  None \<Rightarrow> (Returned (Inl (LibError ''nil response'')), sent')
                | Some r \<Rightarrow> (Returned (Inr r), sent'))))"

section \<open>The transports\<close>

text \<open>
  The \<open>Wrapped\<close> field of a transport is not a field of its record: the transport that
  \<open>tokenAuthTransport\<close> wraps is the network (the \<^typ>\<open>server\<close>), and the one that
  \<open>basicAuthTransport\<close> wraps is an argument of its \<open>RoundTrip\<close>.  Closing a response body
  has no effect on the values returned and is left out.
\<close>

record tokenAuthTransport =
  t_Username :: string
  t_Password :: string

record basicAuthTransport =
  b_URL :: string
  b_Username :: string
  b_Password :: string

record bearerAuthChallenge =
  Realm :: string
  Service :: string
  Scope :: string

definition parseAuthHeader :: "header \<Rightarrow> panic + authChallenge list" where
  "parseAuthHeader h = parseAuthHeader_loop (Header_Values h ''Www-Authenticate'') []"

definition param :: "params \<Rightarrow> string \<Rightarrow> string" where
  \<comment> \<open>\<open>Parameters[key]\<close>: the empty string for a missing key\<close>
  "param ps k = (case map_of ps k of None \<Rightarrow> [] | Some v \<Rightarrow> v)"

definition auth ::
  "stdlib \<Rightarrow> server \<Rightarrow> tokenAuthTransport \<Rightarrow> bearerAuthChallenge \<Rightarrow> request list \<Rightarrow>
     (string \<times> response option \<times> error option) outcome \<times> request list" where
  "auth lib srv t challenge sent =
     (case url_Parse lib (Realm challenge) of
        Inl e \<Rightarrow> (Returned ([], None, Some e), sent)
      | Inr realmUrl \<Rightarrow>
          (let q0 = url_Query lib realmUrl;
               q1 = Values_Set q0 ''service'' (Service challenge);
               q2 = (if Scope challenge \<noteq> [] then Values_Set q1 ''scope'' (Scope challenge) else q1);
               realmUrl' = url_setRawQuery lib realmUrl (Values_Encode lib q2)
           in case NewRequest lib ''GET'' realmUrl' None of
                Inl e \<Rightarrow> (Returned ([], None, Some e), sent)
              | Inr authRequest0 \<Rightarrow>
                  (let authRequest =
                         (if t_Username t \<noteq> [] \<or> t_Password t \<noteq> []
                          then SetBasicAuth authRequest0 (t_Username t) (t_Password t)
                          else authRequest0)
                   in case Client_Do (base_RoundTrip srv) authRequest sent of
                        (Panicked p, sent') \<Rightarrow> (Panicked p, sent')
                      | (Returned (Inl e), sent') \<Rightarrow> (Returned ([], None, Some e), sent')
                      | (Returned (Inr response), sent') \<Rightarrow>
                          if StatusCode response \<noteq> 200
                          then (Returned ([], Some response, None), sent')
                          else (case json_Decode_token lib (Body response) of
                                  Inl e \<Rightarrow> (Returned ([], None, Some e), sent')
                                | Inr token \<Rightarrow> (Returned (token, None, None), sent')))))"

definition SetBearer :: "request \<Rightarrow> string \<Rightarrow> request" where
  \<comment> \<open>\<open>req.Header.Set("Authorization", fmt.Sprintf("Bearer %s", token))\<close>\<close>
  "SetBearer req token = req\<lparr>Header := Header_Set (Header req) ''Authorization'' (''Bearer '' @ token)\<rparr>"

definition authAndRetry ::
  "stdlib \<Rightarrow> server \<Rightarrow> tokenAuthTransport \<Rightarrow> bearerAuthChallenge \<Rightarrow> request \<Rightarrow> request list \<Rightarrow>
     reply outcome \<times> request list" where
  "authAndRetry lib srv t challenge req sent =
     (case auth lib srv t challenge sent of
        (Panicked p, sent') \<Rightarrow> (Panicked p, sent')
      | (Returned (token, authResp, err), sent') \<Rightarrow>
          (case err of
             Some e \<Rightarrow> (Returned (authResp, err), sent')
           | None \<Rightarrow> base_RoundTrip srv (SetBearer req token) sent'))"

definition tokenAuth_RoundTrip ::
  "stdlib \<Rightarrow> server \<Rightarrow> tokenAuthTransport \<Rightarrow> request \<Rightarrow> request list \<Rightarrow>
     reply outcome \<times> request list" where
  "tokenAuth_RoundTrip lib srv t req sent =
     (case base_RoundTrip srv req sent of
        (Panicked p, sent') \<Rightarrow> (Panicked p, sent')
      | (Returned (resp, err), sent') \<Rightarrow>
          (case err of
             Some e \<Rightarrow> (Returned (resp, err), sent')
           | None \<Rightarrow>
               (case resp of
                  None \<Rightarrow> (Returned (resp, err), sent')
                | Some r \<Rightarrow>
                    if StatusCode r = 401
                    then (case parseAuthHeader (RespHeader r) of
                            Inl p \<Rightarrow> (Panicked p, sent')
                          | Inr challenges \<Rightarrow>
                              (case find (\<lambda>challenge. Scheme challenge = ''bearer'') challenges of
                                 None \<Rightarrow> (Returned (resp, err), sent')
                               | Some bearerChallenge \<Rightarrow>
                                   authAndRetry lib srv t
                                     \<lparr>Realm = param (Parameters bearerChallenge) ''realm'',
                                      Service = param (Parameters bearerChallenge) ''service'',
                                      Scope = param (Parameters bearerChallenge) ''scope''\<rparr>
                                     req sent'))
                    else (Returned (resp, err), sent'))))"

definition basicAuth_RoundTrip ::
  "(request \<Rightarrow> 'w \<Rightarrow> 'r) \<Rightarrow> basicAuthTransport \<Rightarrow> request \<Rightarrow> 'w \<Rightarrow> 'r" where
  "basicAuth_RoundTrip wrapped b req w =
     (let req' =
            (if HasPrefix (URL req) (b_URL b)
             then (if b_Username b \<noteq> [] \<or> b_Password b \<noteq> []
                   then SetBasicAuth req (b_Username b) (b_Password b)
                   else req)
             else req)
      in wrapped req' w)"

section \<open>The registry client of main.go\<close>

record Registry =
  r_URL :: string
  r_basic :: basicAuthTransport
  r_token :: tokenAuthTransport

definition NewRegistry :: "string \<Rightarrow> string \<Rightarrow> string \<Rightarrow> Registry" where
  "NewRegistry url username password =
     \<lparr>r_URL = url,
      r_basic = \<lparr>b_URL = url, b_Username = username, b_Password = password\<rparr>,
      r_token = \<lparr>t_Username = username, t_Password = password\<rparr>\<rparr>"

definition Registry_RoundTrip ::
  "stdlib \<Rightarrow> server \<Rightarrow> Registry \<Rightarrow> request \<Rightarrow> request list \<Rightarrow> reply outcome \<times> request list" where
  \<comment> \<open>the transport of \<open>r.Client\<close>: the basic-auth transport around the token transport\<close>
  "Registry_RoundTrip lib srv r =
     basicAuth_RoundTrip (tokenAuth_RoundTrip lib srv (r_token r)) (r_basic r)"

definition Registry_url :: "Registry \<Rightarrow> string \<Rightarrow> string \<Rightarrow> string" where
  \<comment> \<open>\<open>r.url("/v2/%s/manifests/%s", repo, tag)\<close>, the only template in use\<close>
  "Registry_url r repo tag = r_URL r @ (''/v2/'' @ repo @ ''/manifests/'' @ tag)"

definition dockerManifestV2MIME :: string where
  "dockerManifestV2MIME = ''application/vnd.docker.distribution.manifest.v2+json''"

definition dockerManifestListV2MIME :: string where
  "dockerManifestListV2MIME = ''application/vnd.docker.distribution.manifest.list.v2+json''"

definition ociManifestV1MIME :: string where
  "ociManifestV1MIME = ''application/vnd.oci.image.manifest.v1+json''"

definition ociIndexV1MIME :: string where
  "ociIndexV1MIME = ''application/vnd.oci.image.index.v1+json''"

definition sourceRequest :: "stdlib \<Rightarrow> Registry \<Rightarrow> string \<Rightarrow> string \<Rightarrow> error + request" where
  "sourceRequest lib r repo oldTag =
     (case NewRequest lib ''GET'' (Registry_url r repo oldTag) None of
        Inl e \<Rightarrow> Inl e
      | Inr sourceReq \<Rightarrow>
          Inr (sourceReq\<lparr>Header := Header_Set (Header sourceReq) ''Accept''
                 (ociManifestV1MIME @ '', '' @ ociIndexV1MIME @ '', '' @
                  dockerManifestListV2MIME @ '', '' @ dockerManifestV2MIME)\<rparr>))"

definition destRequest ::
  "stdlib \<Rightarrow> Registry \<Rightarrow> string \<Rightarrow> string \<Rightarrow> string \<Rightarrow> string \<Rightarrow> error + request" where
  "destRequest lib r repo newTag receivedMIME manifest =
     (case NewRequest lib ''PUT'' (Registry_url r repo newTag) (Some manifest) of
        Inl e \<Rightarrow> Inl e
      | Inr destReq \<Rightarrow>
          Inr (destReq\<lparr>Header := Header_Set (Header destReq) ''Content-Type'' receivedMIME\<rparr>))"

definition ReTag ::
  "stdlib \<Rightarrow> server \<Rightarrow> Registry \<Rightarrow> string \<Rightarrow> string \<Rightarrow> string \<Rightarrow> request list \<Rightarrow>
     error option outcome \<times> request list" where
  "ReTag lib srv r repo oldTag newTag sent =
     (case sourceRequest lib r repo oldTag of
        Inl e \<Rightarrow> (Returned (Some e), sent)
      | Inr sourceReq \<Rightarrow>
          (case Client_Do (Registry_RoundTrip lib srv r) sourceReq sent of
             (Panicked p, sent1) \<Rightarrow> (Panicked p, sent1)
           | (Returned (Inl e), sent1) \<Rightarrow> (Returned (Some e), sent1)
           | (Returned (Inr sourceResp), sent1) \<Rightarrow>
               if StatusCode sourceResp \<noteq> 200
               then (Returned (Some (HttpError (Status sourceResp) (Registry_url r repo oldTag))), sent1)
               else (let receivedMIME = Header_Get (RespHeader sourceResp) ''Content-Type''
                     in case Body sourceResp of
                          Inl e \<Rightarrow> (Returned (Some e), sent1)
                        | Inr manifest \<Rightarrow>
                            (case destRequest lib r repo newTag receivedMIME manifest of
                               Inl e \<Rightarrow> (Returned (Some e), sent1)
                             | Inr destReq \<Rightarrow>
                                 (case Client_Do (Registry_RoundTrip lib srv r) destReq sent1 of
                                    (Panicked p, sent2) \<Rightarrow> (Panicked p, sent2)
                                  | (Returned (Inl e), sent2) \<Rightarrow> (Returned (Some e), sent2)
                                  | (Returned (Inr destResp), sent2) \<Rightarrow>
                                      if StatusCode destResp \<noteq> 201
                                      then (Returned (Some (HttpError (Status destResp)
                                              (Registry_url r repo newTag))), sent2)
                                      else (Returned None, sent2))))))"

section \<open>A library instance and scripted servers, for evaluating the model\<close>

text \<open>
  \<open>plain_lib\<close> accepts every URL as it is written, finds no query in it, writes a query
  without escaping, and takes the whole body of a token response as the token.
  \<open>scripted replies\<close> is the network that answers the \<open>n\<close>-th request it is sent with
  the \<open>n\<close>-th reply of the list.
\<close>

fun plain_Encode :: "header \<Rightarrow> string" where
  "plain_Encode [] = []"
| "plain_Encode [(k, vs)] = k @ ''='' @ concat vs"
| "plain_Encode ((k, vs) # kvs) = k @ ''='' @ concat vs @ ''&'' @ plain_Encode kvs"

definition plain_lib :: stdlib where
  "plain_lib =
     \<lparr>url_Parse = Inr,
      url_Query = (\<lambda>u. []),
      url_setRawQuery = (\<lambda>u q. u @ ''?'' @ q),
      Values_Encode = plain_Encode,
      json_Decode_token = (\<lambda>body. body)\<rparr>"

definition scripted :: "reply list \<Rightarrow> server" where
  "scripted replies sent req =
     (if length sent < length replies then replies ! length sent
      else (None, Some (LibError ''connection refused'')))"

definition respond :: "int \<Rightarrow> string \<Rightarrow> header \<Rightarrow> string \<Rightarrow> reply" where
  "respond code status h body =
     (Some \<lparr>StatusCode = code, Status = status, RespHeader = h, Body = Inr body\<rparr>, None)"

definition challenge_as :: "string \<Rightarrow> string" where
  "challenge_as sch =
     sch @ '' realm='' @ [dquote] @ ''https://auth.example/token'' @ [dquote] @
     '',service='' @ [dquote] @ ''registry.example'' @ [dquote] @
     '',scope='' @ [dquote] @ ''repository:acme/widget:pull'' @ [dquote]"

definition bearer_challenge :: string where
  "bearer_challenge = challenge_as ''Bearer''"

definition unauthorized :: "string list \<Rightarrow> reply" where
  "unauthorized challenges =
     respond 401 ''401 Unauthorized'' [(''Www-Authenticate'', challenges)] []"

definition manifest_get :: request where
  "manifest_get =
     \<lparr>Method = ''GET'', URL = ''https://registry.example/v2/acme/widget/manifests/1.0.0'',
      Header = [], ReqBody = None\<rparr>"

definition token_get :: request where
  "token_get =
     \<lparr>Method = ''GET'',
      URL = ''https://auth.example/token?service=registry.example&scope=repository:acme/widget:pull'',
      Header = [], ReqBody = None\<rparr>"

definition anonymous :: tokenAuthTransport where
  "anonymous = \<lparr>t_Username = [], t_Password = []\<rparr>"

definition source_get :: request where
  "source_get =
     \<lparr>Method = ''GET'', URL = ''https://registry.example/v2/acme/widget/manifests/1.0.0'',
      Header = [(''Accept'', [ociManifestV1MIME @ '', '' @ ociIndexV1MIME @ '', '' @
                               dockerManifestListV2MIME @ '', '' @ dockerManifestV2MIME])],
      ReqBody = None\<rparr>"

definition dest_put :: "string \<Rightarrow> request" where
  "dest_put manifest =
     \<lparr>Method = ''PUT'', URL = ''https://registry.example/v2/acme/widget/manifests/1.0.1'',
      Header = [(''Content-Type'', [dockerManifestV2MIME])],
      ReqBody = Some manifest\<rparr>"

definition registry :: Registry where
  "registry = NewRegistry ''https://registry.example'' ''user'' ''pass''"

section \<open>Header texts with a list of parameters\<close>

text \<open>
  The text of a parameter list, for stating what the parser returns on it.  A parameter is
  a name and a value written either as a token or as a quoted string; \<open>param_text\<close> writes
  it as \<open>,name=value\<close> or \<open>,name="value"\<close>.  \<open>param_ok\<close> holds when the name is a
  non-empty token and the value is a non-empty token, or a non-empty quoted text without
  double quote and backslash.  \<open>stored ps acc\<close> is the map \<open>acc\<close> after the parameters
  \<open>ps\<close> have been stored in it in their order, each under its lower-case name.
\<close>

datatype valueText = TokenValue string | QuotedValue string

fun value_of :: "valueText \<Rightarrow> string" where
  "value_of (TokenValue x) = x"
| "value_of (QuotedValue x) = x"

fun value_text :: "valueText \<Rightarrow> string" where
  "value_text (TokenValue x) = x"
| "value_text (QuotedValue x) = dquote # x @ [dquote]"

fun value_ok :: "valueText \<Rightarrow> bool" where
  "value_ok (TokenValue x) = (x \<noteq> [] \<and> list_all tokenOctet x)"
| "value_ok (QuotedValue x) = (x \<noteq> [] \<and> dquote \<notin> set x \<and> backslash \<notin> set x)"

definition param_ok :: "string \<times> valueText \<Rightarrow> bool" where
  "param_ok p = (fst p \<noteq> [] \<and> list_all tokenOctet (fst p) \<and> value_ok (snd p))"

definition param_text :: "string \<times> valueText \<Rightarrow> string" where
  "param_text p = CHR '','' # fst p @ CHR ''='' # value_text (snd p)"

definition stored :: "(string \<times> valueText) list \<Rightarrow> params \<Rightarrow> params" where
  "stored ps acc = foldl (\<lambda>acc p. AList.update (ToLower (fst p)) (value_of (snd p)) acc) acc ps"

section \<open>Facts about the Challenge Parser\<close>

lemma expectToken_token_prefix:
  assumes "\<forall>c\<in>set tok. tokenOctet c" and "\<not> tokenOctet x"
  shows "expectToken (tok @ x # rest) = (tok, x # rest)"
  using assms by (simp add: expectToken_eq)

lemma skipSpace_nonspace: "\<not> spaceOctet x \<Longrightarrow> skipSpace (x # rest) = x # rest"
  by (simp add: skipSpace_eq)

lemma skipSpace_Nil: "skipSpace [] = []"
  by (simp add: skipSpace_eq)

lemma quoted_loop_plain:
  assumes "dquote \<notin> set R" and "backslash \<notin> set R" and "i \<le> length R"
  shows "quoted_loop (R @ dquote # rest) i = Inr (R, rest)"
  using assms(3)
proof (induction "length R - i" arbitrary: i)
  case 0
  then have i: "i = length R" by simp
  show ?case
    by (subst quoted_loop.simps) (simp add: i)
next
  case (Suc n)
  then have lt: "i < length R" by simp
  then have "R ! i \<in> set R" by simp
  with assms have ne: "R ! i \<noteq> dquote" "R ! i \<noteq> backslash" by auto
  have "quoted_loop (R @ dquote # rest) (i + 1) = Inr (R, rest)"
    using Suc lt by (intro Suc.hyps(1)) auto
  then show ?case using lt ne
    by (subst quoted_loop.simps) (simp add: nth_append)
qed

lemma expectTokenOrQuoted_plain:
  assumes "dquote \<notin> set R" and "backslash \<notin> set R"
  shows "expectTokenOrQuoted (dquote # R @ dquote # rest) = Inr (R, rest)"
  using quoted_loop_plain [OF assms, of 0 rest]
  by (simp add: expectTokenOrQuoted_def HasPrefix_def)

lemma tokenOctet_not_space: "tokenOctet c \<Longrightarrow> \<not> spaceOctet c"
proof
  assume t: "tokenOctet c" and "spaceOctet c"
  then have "c = CHR '' '' \<or> c = CHR 0x09 \<or> c = CHR 0x0D \<or> c = CHR 0x0A"
    by (simp add: spaceOctet_iff spaces_def)
  then have "\<not> tokenOctet c"
    by (elim disjE) (simp_all add: tokenOctet_iff separators_def)
  with t show False by simp
qed

lemma paramsLoop_Nil: "paramsLoop [] acc = Inr acc"
  by (subst paramsLoop.simps) (simp add: HasPrefix_def)

lemma paramsLoop_quoted_step:
  assumes key: "key \<noteq> []" "\<forall>c\<in>set key. tokenOctet c"
    and R: "R \<noteq> []" "dquote \<notin> set R" "backslash \<notin> set R"
  shows "paramsLoop (CHR '','' # key @ CHR ''='' # dquote # R @ dquote # rest) acc =
         paramsLoop (skipSpace rest) (AList.update (ToLower key) R acc)"
proof -
  from key obtain k ks where k: "key = k # ks" "tokenOctet k"
    by (cases key) auto
  have eq: "\<not> tokenOctet (CHR ''='')"
    by (simp add: tokenOctet_iff separators_def)
  have sk: "skipSpace (key @ CHR ''='' # dquote # R @ dquote # rest) =
            key @ CHR ''='' # dquote # R @ dquote # rest"
    using k skipSpace_nonspace [OF tokenOctet_not_space [OF k(2)]] by simp
  have tok: "expectToken (key @ CHR ''='' # dquote # R @ dquote # rest) =
             (key, CHR ''='' # dquote # R @ dquote # rest)"
    using key(2) eq by (rule expectToken_token_prefix)
  have val: "expectTokenOrQuoted (dquote # R @ dquote # rest) = Inr (R, rest)"
    using R(2,3) by (rule expectTokenOrQuoted_plain)
  show ?thesis
    by (subst paramsLoop.simps) (simp add: HasPrefix_def sk tok val key(1) R(1))
qed

lemma paramsLoop_values:
  "paramsLoop s acc = Inr ps \<Longrightarrow> (\<forall>(k, x)\<in>set acc. x \<noteq> []) \<Longrightarrow> (\<forall>(k, x)\<in>set ps. x \<noteq> [])"
proof (induction s acc arbitrary: ps rule: paramsLoop.induct)
  case (1 s acc)
  show ?case
  proof (cases "HasPrefix s '',''")
    case False
    with "1.prems" show ?thesis
      by (subst (asm) paramsLoop.simps) simp
  next
    case True
    obtain pkey s1 where tok: "expectToken (skipSpace (drop 1 s)) = (pkey, s1)"
      by (cases "expectToken (skipSpace (drop 1 s))")
    show ?thesis
    proof (cases "pkey \<noteq> [] \<and> HasPrefix s1 ''=''")
      case False
      with "1.prems" True tok show ?thesis
        by (subst (asm) paramsLoop.simps) (auto split: if_splits)
    next
      case ok: True
      show ?thesis
      proof (cases "expectTokenOrQuoted (drop 1 s1)")
        case (Inl e)
        with "1.prems" True tok ok show ?thesis
          by (subst (asm) paramsLoop.simps) simp
      next
        case (Inr vr)
        obtain pvalue s2 where vr: "vr = (pvalue, s2)" by (cases vr)
        show ?thesis
        proof (cases "pvalue = []")
          case True
          with "1.prems" \<open>HasPrefix s '',''\<close> tok ok Inr vr show ?thesis
            by (subst (asm) paramsLoop.simps) simp
        next
          case False
          with "1.prems"(1) \<open>HasPrefix s '',''\<close> tok ok Inr vr
          have run: "paramsLoop (skipSpace s2) (AList.update (ToLower pkey) pvalue acc) = Inr ps"
            by (subst (asm) paramsLoop.simps) simp
          have "set (AList.update (ToLower pkey) pvalue acc) \<subseteq> insert (ToLower pkey, pvalue) (set acc)"
            by (induction acc) auto
          with "1.prems"(2) False
          have inv: "\<forall>(k, x)\<in>set (AList.update (ToLower pkey) pvalue acc). x \<noteq> []"
            by auto
          from ok have ok1: "pkey \<noteq> []" and ok2: "\<not> \<not> HasPrefix s1 ''=''" by simp_all
          show ?thesis
            using "1.IH" [OF \<open>HasPrefix s '',''\<close> tok [symmetric] ok1 ok2 Inr vr [symmetric] False run inv] .
        qed
      qed
    qed
  qed
qed

lemma paramsLoop_empty_value:
  assumes "HasPrefix s '',''" and "expectToken (skipSpace (drop 1 s)) = (pkey, s1)"
    and "expectTokenOrQuoted (drop 1 s1) = Inr ([], s2)"
  shows "paramsLoop s acc = Inr acc"
  using assms by (subst paramsLoop.simps) simp

lemma ToLower_char_bearer_token: "ToLower_char c \<in> set ''bearer'' \<Longrightarrow> tokenOctet c"
proof (cases "65 \<le> (of_char c :: nat) \<and> (of_char c :: nat) \<le> 90")
  case True
  then have "c \<notin> set separators"
    by (auto simp: separators_def)
  with True show ?thesis
    by (simp add: tokenOctet_iff)
next
  case False
  assume "ToLower_char c \<in> set ''bearer''"
  moreover from False have "ToLower_char c = c"
    by (auto simp: ToLower_char_def Let_def)
  ultimately have "c \<in> set ''bearer''"
    by simp
  then have "c = CHR ''b'' \<or> c = CHR ''e'' \<or> c = CHR ''a'' \<or> c = CHR ''r''"
    by auto
  then show ?thesis
    by (elim disjE) (simp_all add: tokenOctet_iff separators_def)
qed

lemma ToLower_keys:
  "ToLower ''realm'' = ''realm''" "ToLower ''service'' = ''service''" "ToLower ''scope'' = ''scope''"
  by (simp_all add: ToLower_def ToLower_char_def)

lemma key_tokens:
  "\<forall>c\<in>set ''realm''. tokenOctet c" "\<forall>c\<in>set ''service''. tokenOctet c"
  "\<forall>c\<in>set ''scope''. tokenOctet c"
  by (simp_all add: tokenOctet_iff separators_def)

lemma skipSpace_comma: "skipSpace (CHR '','' # rest) = CHR '','' # rest"
  by (rule skipSpace_nonspace) (simp add: spaceOctet_iff spaces_def)

lemma parseValueAndParams_bearer:
  assumes sch: "ToLower sch = ''bearer''"
    and ne: "R \<noteq> []" "S \<noteq> []" "Sc \<noteq> []"
    and nq: "dquote \<notin> set R" "dquote \<notin> set S" "dquote \<notin> set Sc"
    and nb: "backslash \<notin> set R" "backslash \<notin> set S" "backslash \<notin> set Sc"
  shows "parseValueAndParams
           (sch @ '' realm='' @ [dquote] @ R @ [dquote] @ '',service='' @ [dquote] @ S @ [dquote] @
            '',scope='' @ [dquote] @ Sc @ [dquote]) =
         Inr (''bearer'', [(''realm'', R), (''service'', S), (''scope'', Sc)])"
proof -
  define p3 where "p3 = CHR '','' # ''scope'' @ CHR ''='' # dquote # Sc @ dquote # []"
  define p2 where "p2 = CHR '','' # ''service'' @ CHR ''='' # dquote # S @ dquote # p3"
  define r1 where "r1 = ''realm'' @ CHR ''='' # dquote # R @ dquote # p2"
  from sch have "map ToLower_char sch = ''bearer''"
    by (simp add: ToLower_def)
  then have "\<forall>c\<in>set sch. ToLower_char c \<in> set ''bearer''"
    by (metis image_eqI list.set_map)
  then have toks: "\<forall>c\<in>set sch. tokenOctet c"
    by (blast intro: ToLower_char_bearer_token)
  from sch have sne: "sch \<noteq> []"
    by (auto simp: ToLower_def)
  have "\<not> tokenOctet (CHR '' '')"
    by (simp add: tokenOctet_iff separators_def)
  with toks have tok: "expectToken (sch @ CHR '' '' # r1) = (sch, CHR '' '' # r1)"
    by (rule expectToken_token_prefix)
  have sp: "skipSpace (CHR '' '' # r1) = r1"
    by (simp add: r1_def skipSpace_eq spaceOctet_iff spaces_def)
  have 3: "paramsLoop p3 [(''realm'', R), (''service'', S)] =
           Inr [(''realm'', R), (''service'', S), (''scope'', Sc)]"
    unfolding p3_def
    using paramsLoop_quoted_step [of "''scope''" Sc "[]" "[(''realm'', R), (''service'', S)]"]
      ne nq nb key_tokens
    by (simp add: ToLower_keys skipSpace_Nil paramsLoop_Nil)
  have "skipSpace p3 = p3"
    unfolding p3_def by (rule skipSpace_comma)
  then have 2: "paramsLoop p2 [(''realm'', R)] = paramsLoop p3 [(''realm'', R), (''service'', S)]"
    unfolding p2_def
    using paramsLoop_quoted_step [of "''service''" S p3 "[(''realm'', R)]"]
      ne nq nb key_tokens
    by (simp add: ToLower_keys)
  have "skipSpace p2 = p2"
    unfolding p2_def by (rule skipSpace_comma)
  then have 1: "paramsLoop (CHR '','' # r1) [] = paramsLoop p2 [(''realm'', R)]"
    unfolding r1_def
    using paramsLoop_quoted_step [of "''realm''" R p2 "[]"]
      ne nq nb key_tokens
    by (simp add: ToLower_keys)
  have "parseValueAndParams (sch @ CHR '' '' # r1) =
        Inr (''bearer'', [(''realm'', R), (''service'', S), (''scope'', Sc)])"
    by (simp add: parseValueAndParams_def tok sp sne sch 1 2 3)
  moreover have "sch @ '' realm='' @ [dquote] @ R @ [dquote] @ '',service='' @ [dquote] @ S @ [dquote] @
            '',scope='' @ [dquote] @ Sc @ [dquote] = sch @ CHR '' '' # r1"
    by (simp add: r1_def p2_def p3_def)
  ultimately show ?thesis by simp
qed

lemma not_token_simps:
  "\<not> tokenOctet (CHR '','')" "\<not> tokenOctet (CHR ''='')" "\<not> tokenOctet dquote"
  by (simp_all add: tokenOctet_iff separators_def dquote_def)

lemma not_space_simps: "\<not> spaceOctet (CHR '','')" "\<not> spaceOctet (CHR ''='')"
  by (simp_all add: spaceOctet_iff spaces_def)

lemma skipSpace_token_start:
  assumes "\<forall>c\<in>set key. tokenOctet c" and "\<not> spaceOctet x"
  shows "skipSpace (key @ x # rest) = key @ x # rest"
proof (cases key)
  case Nil
  with assms(2) show ?thesis by (simp add: skipSpace_nonspace)
next
  case (Cons k ks)
  with assms(1) have "\<not> spaceOctet k"
    by (simp add: tokenOctet_not_space)
  with Cons show ?thesis by (simp add: skipSpace_nonspace)
qed

lemma expectTokenOrQuoted_token:
  assumes "v \<noteq> []" and "\<forall>c\<in>set v. tokenOctet c" and "\<not> tokenOctet x"
  shows "expectTokenOrQuoted (v @ x # rest) = Inr (v, x # rest)"
proof -
  from assms(1,2) obtain c cs where v: "v = c # cs" and "tokenOctet c"
    by (cases v) auto
  with not_token_simps(3) have "c \<noteq> dquote" by auto
  with v have "\<not> HasPrefix (v @ x # rest) [dquote]"
    by (simp add: HasPrefix_def)
  then show ?thesis
    using expectToken_token_prefix [OF assms(2,3)] by (simp add: expectTokenOrQuoted_def)
qed

lemma paramsLoop_param_step:
  assumes "param_ok p"
  shows "paramsLoop (param_text p @ CHR '','' # rest) acc =
         paramsLoop (CHR '','' # rest) (AList.update (ToLower (fst p)) (value_of (snd p)) acc)"
proof -
  obtain k v where p: "p = (k, v)" by (cases p)
  from assms p have k: "k \<noteq> []" "\<forall>c\<in>set k. tokenOctet c" and v: "value_ok v"
    by (simp_all add: param_ok_def list_all_iff)
  have sk: "skipSpace (k @ CHR ''='' # value_text v @ CHR '','' # rest) =
            k @ CHR ''='' # value_text v @ CHR '','' # rest"
    using k(2) not_space_simps(2) by (rule skipSpace_token_start)
  have tok: "expectToken (k @ CHR ''='' # value_text v @ CHR '','' # rest) =
             (k, CHR ''='' # value_text v @ CHR '','' # rest)"
    using k(2) not_token_simps(2) by (rule expectToken_token_prefix)
  have val: "expectTokenOrQuoted (value_text v @ CHR '','' # rest) = Inr (value_of v, CHR '','' # rest)"
    and ne: "value_of v \<noteq> []"
  proof -
    show "expectTokenOrQuoted (value_text v @ CHR '','' # rest) = Inr (value_of v, CHR '','' # rest)"
    proof (cases v)
      case (TokenValue x)
      with v show ?thesis
        using expectTokenOrQuoted_token [of x "CHR '',''" rest] not_token_simps(1)
        by (simp add: list_all_iff)
    next
      case (QuotedValue x)
      with v show ?thesis
        using expectTokenOrQuoted_plain [of x "CHR '','' # rest"] by simp
    qed
    from v show "value_of v \<noteq> []" by (cases v) simp_all
  qed
  show ?thesis
    by (subst paramsLoop.simps)
       (simp add: p param_text_def HasPrefix_def sk tok val ne k(1) skipSpace_comma)
qed

lemma paramsLoop_params:
  assumes "\<forall>p\<in>set ps. param_ok p"
  shows "paramsLoop (concat (map param_text ps) @ CHR '','' # rest) acc =
         paramsLoop (CHR '','' # rest) (stored ps acc)"
  using assms
proof (induction ps arbitrary: acc)
  case Nil
  show ?case by (simp add: stored_def)
next
  case (Cons p ps)
  have "paramsLoop (concat (map param_text (p # ps)) @ CHR '','' # rest) acc =
        paramsLoop (param_text p @ CHR '','' # tl (concat (map param_text ps) @ CHR '','' # rest)) acc"
    by (cases ps) (simp_all add: param_text_def)
  also have "\<dots> = paramsLoop (CHR '','' # tl (concat (map param_text ps) @ CHR '','' # rest))
                     (AList.update (ToLower (fst p)) (value_of (snd p)) acc)"
    using Cons.prems by (intro paramsLoop_param_step) simp
  also have "CHR '','' # tl (concat (map param_text ps) @ CHR '','' # rest) =
             concat (map param_text ps) @ CHR '','' # rest"
    by (cases ps) (simp_all add: param_text_def)
  also have "paramsLoop (concat (map param_text ps) @ CHR '','' # rest)
               (AList.update (ToLower (fst p)) (value_of (snd p)) acc) =
             paramsLoop (CHR '','' # rest) (stored ps (AList.update (ToLower (fst p)) (value_of (snd p)) acc))"
    using Cons.prems by (intro Cons.IH) simp
  finally show ?case by (simp add: stored_def)
qed

lemma paramsLoop_empty_param:
  assumes "\<forall>c\<in>set key. tokenOctet c" and "expectTokenOrQuoted vt = Inr ([], r)"
  shows "paramsLoop (CHR '','' # key @ CHR ''='' # vt) acc = Inr acc"
proof -
  have "skipSpace (key @ CHR ''='' # vt) = key @ CHR ''='' # vt"
    using assms(1) not_space_simps(2) by (rule skipSpace_token_start)
  moreover have "expectToken (key @ CHR ''='' # vt) = (key, CHR ''='' # vt)"
    using assms(1) not_token_simps(2) by (rule expectToken_token_prefix)
  ultimately show ?thesis
    using assms(2)
    by (intro paramsLoop_empty_value [where pkey = key and ?s1.0 = "CHR ''='' # vt" and ?s2.0 = r])
       (simp_all add: HasPrefix_def)
qed

lemma parseValueAndParams_empty_param:
  assumes sch: "sch \<noteq> []" "\<forall>c\<in>set sch. tokenOctet c"
    and ws: "ws \<noteq> []" "\<forall>c\<in>set ws. spaceOctet c"
    and ps: "\<forall>p\<in>set ps. param_ok p"
    and key: "\<forall>c\<in>set key. tokenOctet c"
    and vt: "expectTokenOrQuoted vt = Inr ([], r)"
  shows "parseValueAndParams
           (sch @ ws @ drop 1 (concat (map param_text ps) @ CHR '','' # key @ CHR ''='' # vt)) =
         Inr (ToLower sch, stored ps [])"
proof -
  define P where "P = concat (map param_text ps) @ CHR '','' # key @ CHR ''='' # vt"
  define X where "X = drop 1 P"
  have Pc: "P = CHR '','' # X"
    by (cases ps) (simp_all add: X_def P_def param_text_def)
  have start: "\<exists>x xs. X = x # xs \<and> \<not> spaceOctet x"
  proof (cases ps)
    case Nil
    then show ?thesis
      using key not_space_simps(2) by (cases key) (auto simp: X_def P_def tokenOctet_not_space)
  next
    case (Cons p ps')
    with ps have "fst p \<noteq> []" "\<forall>c\<in>set (fst p). tokenOctet c"
      by (simp_all add: param_ok_def list_all_iff)
    with Cons show ?thesis
      by (cases "fst p") (auto simp: X_def P_def param_text_def tokenOctet_not_space)
  qed
  from ws obtain w ws' where w: "ws = w # ws'" "spaceOctet w"
    by (cases ws) auto
  then have "\<not> tokenOctet w"
    using tokenOctet_not_space by blast
  with sch(2) w have tok: "expectToken (sch @ ws @ X) = (sch, ws @ X)"
    using expectToken_token_prefix [of sch w "ws' @ X"] by simp
  from start obtain x xs where x: "X = x # xs" "\<not> spaceOctet x" by blast
  have "skipSpace (ws @ X) = dropWhile spaceOctet X"
    using ws(2) by (simp add: skipSpace_eq dropWhile_append2)
  with x have sp: "skipSpace (ws @ X) = X"
    by simp
  have "paramsLoop P [] = paramsLoop (CHR '','' # key @ CHR ''='' # vt) (stored ps [])"
    unfolding P_def using ps by (rule paramsLoop_params)
  also have "\<dots> = Inr (stored ps [])"
    using key vt by (rule paramsLoop_empty_param)
  finally have loop: "paramsLoop (CHR '','' # X) [] = Inr (stored ps [])"
    using Pc by simp
  have "parseValueAndParams (sch @ ws @ X) = Inr (ToLower sch, stored ps [])"
    by (simp add: parseValueAndParams_def tok sp sch(1) loop)
  then show ?thesis
    by (simp only: X_def P_def)
qed

lemma map_of_stored:
  "map_of (stored ps acc) =
   map_of acc ++ map_of (rev (map (\<lambda>p. (ToLower (fst p), value_of (snd p))) ps))"
proof (induction ps arbitrary: acc)
  case Nil
  show ?case by (simp add: stored_def)
next
  case (Cons p ps)
  have "stored (p # ps) acc = stored ps (AList.update (ToLower (fst p)) (value_of (snd p)) acc)"
    by (simp add: stored_def)
  then show ?case
    by (simp add: Cons.IH update_conv' map_add_upd_left map_add_def fun_eq_iff split: option.splits)
qed

section \<open>Claims about the Challenge Parser\<close>

text \<open>
  C2.  Claim: in a double-quoted parameter value every backslash escape decodes to the
  escaped character, wherever in the quoted string it stands.  The scanner restarts its
  inner loop at index \<open>i + i\<close> (\<open>for i += i; ...\<close>) where \<open>i\<close> is the index of the first
  backslash, so the claim fails unless that index is 1.  In \<open>"ab\"cd"\<close> the escaped quote
  and the backslash are skipped and the value is \<open>abcd\<close>; in \<open>"\"x"\<close> the backslash
  itself is taken as the escaped character and the value ends at the escaped quote.
\<close>

theorem expectTokenOrQuoted_escape_misdecoded:
  "expectTokenOrQuoted ([dquote] @ ''ab'' @ [backslash, dquote] @ ''cd'' @ [dquote]) =
     Inr (''abcd'', [])
   \<and> expectTokenOrQuoted ([dquote, backslash, dquote] @ ''x'' @ [dquote]) =
     Inr ([backslash], ''x'' @ [dquote])"
  by code_simp

text \<open>
  C3.  Claim: parsing a header with an unterminated double-quoted value, with or without
  escapes, does not crash.  For the header \<open>Bearer realm="\abc\<close> the write \<open>p[j] = b\<close>
  runs past the end of the buffer of \<open>len(s) - 1\<close> bytes, because the inner loop starts
  again at index 0: the program panics.
\<close>

theorem parseValueAndParams_unterminated_panics:
  "parseValueAndParams (''Bearer realm='' @ [dquote, backslash] @ ''abc'') = Inl IndexOutOfRange"
  by code_simp

text \<open>
  C6.  Claim: every header value \<open>Bearer realm="R",service="S",scope="Sc"\<close> gives exactly
  one challenge, with scheme \<open>bearer\<close> and the parameters \<open>realm\<close>, \<open>service\<close> and \<open>scope\<close>
  bound to \<open>R\<close>, \<open>S\<close> and \<open>Sc\<close>, whatever the case of the scheme.  As stated it fails for an
  empty value: the loop returns at the first empty value, so \<open>realm=""\<close> leaves the
  parameters empty.
\<close>

theorem parseAuthHeader_empty_realm:
  "parseAuthHeader [(''Www-Authenticate'',
      [''Bearer realm='' @ [dquote, dquote] @ '',service='' @ [dquote] @ ''S'' @ [dquote] @
       '',scope='' @ [dquote] @ ''Sc'' @ [dquote]])] =
   Inr [\<lparr>Scheme = ''bearer'', Parameters = []\<rparr>]"
  by code_simp

text \<open>
  C6, amended: for non-empty \<open>R\<close>, \<open>S\<close> and \<open>Sc\<close> that contain neither a double quote nor a
  backslash, and a scheme whose lower-case form is \<open>bearer\<close>, the header value
  \<open>Bearer realm="R",service="S",scope="Sc"\<close> gives exactly one challenge, with scheme
  \<open>bearer\<close> and exactly the three parameters.
\<close>

theorem parseAuthHeader_bearer_challenge:
  assumes "ToLower sch = ''bearer''"
    and "Header_Values h ''Www-Authenticate'' =
      [sch @ '' realm='' @ [dquote] @ R @ [dquote] @ '',service='' @ [dquote] @ S @ [dquote] @
       '',scope='' @ [dquote] @ Sc @ [dquote]]"
    and "R \<noteq> []" "S \<noteq> []" "Sc \<noteq> []"
    and "dquote \<notin> set R" "dquote \<notin> set S" "dquote \<notin> set Sc"
    and "backslash \<notin> set R" "backslash \<notin> set S" "backslash \<notin> set Sc"
  shows "parseAuthHeader h =
    Inr [\<lparr>Scheme = ''bearer'', Parameters = [(''realm'', R), (''service'', S), (''scope'', Sc)]\<rparr>]"
  using parseValueAndParams_bearer [OF assms(1) assms(3-)]
  by (simp add: parseAuthHeader_def assms(2))

theorem parseAuthHeader_bearer_challenge_witness:
  "parseAuthHeader [(''Www-Authenticate'', [challenge_as ''BEARER''])] =
     Inr [\<lparr>Scheme = ''bearer'',
           Parameters = [(''realm'', ''https://auth.example/token''),
                         (''service'', ''registry.example''),
                         (''scope'', ''repository:acme/widget:pull'')]\<rparr>]
   \<and> parseAuthHeader [(''Www-Authenticate'', [challenge_as ''Bearer''])] =
     Inr [\<lparr>Scheme = ''bearer'',
           Parameters = [(''realm'', ''https://auth.example/token''),
                         (''service'', ''registry.example''),
                         (''scope'', ''repository:acme/widget:pull'')]\<rparr>]
   \<and> parseAuthHeader [(''Www-Authenticate'', [challenge_as ''bearer''])] =
     Inr [\<lparr>Scheme = ''bearer'',
           Parameters = [(''realm'', ''https://auth.example/token''),
                         (''service'', ''registry.example''),
                         (''scope'', ''repository:acme/widget:pull'')]\<rparr>]"
proof -
  have 1: "ToLower ''BEARER'' = ''bearer''" "ToLower ''Bearer'' = ''bearer''"
    "ToLower ''bearer'' = ''bearer''"
    by code_simp+
  have "parseAuthHeader [(''Www-Authenticate'', [challenge_as sch])] =
     Inr [\<lparr>Scheme = ''bearer'',
           Parameters = [(''realm'', ''https://auth.example/token''),
                         (''service'', ''registry.example''),
                         (''scope'', ''repository:acme/widget:pull'')]\<rparr>]"
    if "ToLower sch = ''bearer''" for sch
    by (rule parseAuthHeader_bearer_challenge [of sch])
      (simp_all add: that Header_Values_def challenge_as_def dquote_def backslash_def)
  with 1 show ?thesis by simp
qed

text \<open>
  C10.  Every value stored in the parameters of a parsed header value is a non-empty
  string.  And for every header value that consists of a scheme, white space, any number
  of parameters with non-empty values, and then a parameter whose value parses to the
  empty string (for instance \<open>scope=""\<close>) followed by any text: the parser returns the
  lower-case scheme and exactly the earlier parameters, in their order and under their
  lower-case names; the parameter with the empty value and everything after it is left
  out.
\<close>

theorem parseValueAndParams_values_nonempty:
  "(parseValueAndParams h = Inr (v, ps) \<longrightarrow> (\<forall>(k, x)\<in>set ps. x \<noteq> []))
   \<and> (sch \<noteq> [] \<and> list_all tokenOctet sch \<and> ws \<noteq> [] \<and> list_all spaceOctet ws \<and>
      list_all param_ok earlier \<and> list_all tokenOctet key \<and>
      expectTokenOrQuoted vt = Inr ([], r) \<longrightarrow>
        parseValueAndParams
          (sch @ ws @ drop 1 (concat (map param_text earlier) @ CHR '','' # key @ CHR ''='' # vt)) =
          Inr (ToLower sch, stored earlier [])
        \<and> map_of (stored earlier []) =
          map_of (rev (map (\<lambda>p. (ToLower (fst p), value_of (snd p))) earlier)))"
proof (intro conjI impI)
  assume "parseValueAndParams h = Inr (v, ps)"
  then have "ps = [] \<or> (\<exists>s0. paramsLoop s0 [] = Inr ps)"
    by (auto simp: parseValueAndParams_def split: prod.splits if_splits sum.splits)
  then show "\<forall>(k, x)\<in>set ps. x \<noteq> []"
    by (auto dest: paramsLoop_values)
next
  assume a: "sch \<noteq> [] \<and> list_all tokenOctet sch \<and> ws \<noteq> [] \<and> list_all spaceOctet ws \<and>
      list_all param_ok earlier \<and> list_all tokenOctet key \<and>
      expectTokenOrQuoted vt = Inr ([], r)"
  then show "parseValueAndParams
          (sch @ ws @ drop 1 (concat (map param_text earlier) @ CHR '','' # key @ CHR ''='' # vt)) =
          Inr (ToLower sch, stored earlier [])"
    by (intro parseValueAndParams_empty_param [where r = r]) (simp_all add: list_all_iff)
next
  show "map_of (stored earlier []) =
          map_of (rev (map (\<lambda>p. (ToLower (fst p), value_of (snd p))) earlier))"
    by (simp add: map_of_stored)
qed

theorem parseValueAndParams_values_nonempty_witness:
  "parseValueAndParams
     (''Bearer Realm='' @ [dquote] @ ''r'' @ [dquote] @ '',service=s,scope='' @ [dquote, dquote] @
      '',extra='' @ [dquote] @ ''e'' @ [dquote]) =
     Inr (''bearer'', [(''realm'', ''r''), (''service'', ''s'')])
   \<and> ''r'' \<noteq> [] \<and> ''s'' \<noteq> []"
proof -
  let ?h = "''Bearer Realm='' @ [dquote] @ ''r'' @ [dquote] @ '',service=s,scope='' @
      [dquote, dquote] @ '',extra='' @ [dquote] @ ''e'' @ [dquote]"
  let ?earlier = "[(''Realm'', QuotedValue ''r''), (''service'', TokenValue ''s'')]"
  let ?vt = "[dquote, dquote] @ '',extra='' @ [dquote] @ ''e'' @ [dquote]"
  let ?r = "'',extra='' @ [dquote] @ ''e'' @ [dquote]"
  have 1: "''Bearer'' \<noteq> [] \<and> list_all tokenOctet ''Bearer'' \<and> '' '' \<noteq> [] \<and>
      list_all spaceOctet '' '' \<and> list_all param_ok ?earlier \<and> list_all tokenOctet ''scope'' \<and>
      expectTokenOrQuoted ?vt = Inr ([], ?r)"
    by code_simp
  have 2: "''Bearer'' @ '' '' @
      drop 1 (concat (map param_text ?earlier) @ CHR '','' # ''scope'' @ CHR ''='' # ?vt) = ?h"
    by code_simp
  have 3: "ToLower ''Bearer'' = ''bearer''"
    "stored ?earlier [] = [(''realm'', ''r''), (''service'', ''s'')]"
    by code_simp+
  from parseValueAndParams_values_nonempty [of ?h "''bearer''" "[(''realm'', ''r''), (''service'', ''s'')]"
      "''Bearer''" "'' ''" ?earlier "''scope''" ?vt ?r] 1
  have "parseValueAndParams ?h = Inr (''bearer'', [(''realm'', ''r''), (''service'', ''s'')])"
    unfolding 2 3 by blast
  moreover with parseValueAndParams_values_nonempty [of ?h "''bearer''" "[(''realm'', ''r''), (''service'', ''s'')]"]
  have "\<forall>(k, x)\<in>set [(''realm'', ''r''), (''service'', ''s'')]. x \<noteq> []"
    by blast
  ultimately show ?thesis by simp
qed

section \<open>Facts about the transports\<close>

text \<open>The base64 encoding on the test vectors of RFC 4648.\<close>

lemma base64_EncodeToString_vectors:
  "base64_EncodeToString [] = []"
  "base64_EncodeToString ''f'' = ''Zg==''"
  "base64_EncodeToString ''fo'' = ''Zm8=''"
  "base64_EncodeToString ''foo'' = ''Zm9v''"
  "base64_EncodeToString ''foob'' = ''Zm9vYg==''"
  "base64_EncodeToString ''fooba'' = ''Zm9vYmE=''"
  "base64_EncodeToString ''foobar'' = ''Zm9vYmFy''"
  by code_simp+

lemma Method_SetBasicAuth [simp]: "Method (SetBasicAuth req u p) = Method req"
  by (simp add: SetBasicAuth_def)

lemma Method_SetBearer [simp]: "Method (SetBearer req token) = Method req"
  by (simp add: SetBearer_def)

lemma NewRequest_Method: "NewRequest lib m u body = Inr q \<Longrightarrow> Method q = m"
  by (auto simp: NewRequest_def split: sum.splits)

lemma Client_Do_base:
  "Client_Do (base_RoundTrip srv) req sent =
     (Returned (case srv sent req of
                  (resp, Some e) \<Rightarrow> Inl (UrlError e)
                | (None, None) \<Rightarrow> Inl (LibError ''nil response'')
                | (Some r, None) \<Rightarrow> Inr r), sent @ [req])"
  by (simp add: Client_Do_def base_RoundTrip_def split: prod.splits option.splits)

lemma auth_shape:
  obtains (unsent) e where "auth lib srv t ch sent = (Returned ([], None, Some e), sent)"
  | (sent) tok resp err a where "Method a = ''GET''"
      "auth lib srv t ch sent = (Returned (tok, resp, err), sent @ [a])"
proof (cases "url_Parse lib (Realm ch)")
  case (Inl e)
  then have "auth lib srv t ch sent = (Returned ([], None, Some e), sent)"
    by (simp add: auth_def)
  then show ?thesis by (rule unsent)
next
  case (Inr realmUrl)
  define u where "u = url_setRawQuery lib realmUrl (Values_Encode lib
      (if Scope ch \<noteq> [] then Values_Set (Values_Set (url_Query lib realmUrl) ''service'' (Service ch))
          ''scope'' (Scope ch)
       else Values_Set (url_Query lib realmUrl) ''service'' (Service ch)))"
  show ?thesis
  proof (cases "NewRequest lib ''GET'' u None")
    case (Inl e)
    with Inr have "auth lib srv t ch sent = (Returned ([], None, Some e), sent)"
      by (simp add: auth_def Let_def u_def)
    then show ?thesis by (rule unsent)
  next
    case q: (Inr q)
    have m: "Method q = ''GET''"
      using NewRequest_Method [OF q] .
    show ?thesis
    proof (cases "t_Username t \<noteq> [] \<or> t_Password t \<noteq> []")
      case True
      with Inr q
      have "\<exists>tok resp err. auth lib srv t ch sent =
              (Returned (tok, resp, err), sent @ [SetBasicAuth q (t_Username t) (t_Password t)])"
        by (simp add: auth_def Let_def u_def [symmetric] Client_Do_base
            split: prod.splits option.splits sum.splits)
      moreover have "Method (SetBasicAuth q (t_Username t) (t_Password t)) = ''GET''"
        using m by simp
      ultimately show ?thesis by (blast intro: sent)
    next
      case False
      with Inr q
      have "\<exists>tok resp err. auth lib srv t ch sent = (Returned (tok, resp, err), sent @ [q])"
        by (simp add: auth_def Let_def u_def [symmetric] Client_Do_base
            split: prod.splits option.splits sum.splits)
      with m show ?thesis by (blast intro: sent)
    qed
  qed
qed

lemma tokenAuth_RoundTrip_shape:
  "\<exists>extra. snd (tokenAuth_RoundTrip lib srv t req sent) = sent @ req # extra \<and>
     (extra = [] \<or> (\<exists>a. Method a = ''GET'' \<and> (extra = [a] \<or>
        (\<exists>token. extra = [a, SetBearer req token] \<and>
           fst (tokenAuth_RoundTrip lib srv t req sent) =
             Returned (srv (sent @ [req, a]) (SetBearer req token))))))"
proof -
  have retry: "\<exists>extra. snd (authAndRetry lib srv t ch req (sent @ [req])) = sent @ req # extra \<and>
     (extra = [] \<or> (\<exists>a. Method a = ''GET'' \<and> (extra = [a] \<or>
        (\<exists>token. extra = [a, SetBearer req token] \<and>
           fst (authAndRetry lib srv t ch req (sent @ [req])) =
             Returned (srv (sent @ [req, a]) (SetBearer req token))))))" for ch
  proof (cases rule: auth_shape [of lib srv t ch "sent @ [req]"])
    case (unsent e)
    then show ?thesis
      by (simp add: authAndRetry_def)
  next
    case (sent tok resp err a)
    show ?thesis
    proof (cases err)
      case None
      with sent show ?thesis
        by (auto simp: authAndRetry_def base_RoundTrip_def)
    next
      case (Some e)
      with sent show ?thesis
        by (auto simp: authAndRetry_def)
    qed
  qed
  show ?thesis
    using retry
    by (auto simp: tokenAuth_RoundTrip_def base_RoundTrip_def
        split: prod.splits option.splits sum.splits)
qed

lemma tokenAuth_RoundTrip_no_bearer:
  assumes "srv sent req = (Some r, None)" and "StatusCode r = 401"
    and "parseAuthHeader (RespHeader r) = Inr challenges"
    and "\<forall>c\<in>set challenges. Scheme c \<noteq> ''bearer''"
  shows "tokenAuth_RoundTrip lib srv t req sent = (Returned (Some r, None), sent @ [req])"
proof -
  from assms(4) have "find (\<lambda>c. Scheme c = ''bearer'') challenges = None"
    by (simp add: find_None_iff)
  with assms(1-3) show ?thesis
    by (simp add: tokenAuth_RoundTrip_def base_RoundTrip_def)
qed

lemma tokenAuth_RoundTrip_basic_only:
  "tokenAuth_RoundTrip plain_lib
     (scripted [unauthorized [''Basic realm='' @ [dquote] @ ''x'' @ [dquote]]])
     anonymous manifest_get [] =
   (Returned (unauthorized [''Basic realm='' @ [dquote] @ ''x'' @ [dquote]]), [manifest_get])"
  by code_simp

lemma HasPrefix_iff_prefix: "HasPrefix s p \<longleftrightarrow> prefix p s"
  unfolding HasPrefix_def prefix_def
  by (metis append_eq_conv_conj append_take_drop_id)

lemma Header_Values_Set:
  "Header_Values (Header_Set h k v) k' = (if k' = k then [v] else Header_Values h k')"
  by (simp add: Header_Values_def Header_Set_def update_conv')

lemma snd_Client_Do: "snd (Client_Do rt req sent) = snd (rt req sent)"
  by (simp add: Client_Do_def split: prod.splits outcome.splits option.splits)

lemma Registry_RoundTrip_trace:
  "\<exists>req' extra. snd (Registry_RoundTrip lib srv r req sent) = sent @ req' # extra \<and>
     Method req' = Method req \<and> URL req' = URL req \<and> ReqBody req' = ReqBody req \<and>
     Header_Values (Header req') ''Content-Type'' = Header_Values (Header req) ''Content-Type'' \<and>
     (\<forall>q\<in>set extra. Method q = ''GET'' \<or> Method q = Method req)"
proof -
  define req' where "req' =
    (if HasPrefix (URL req) (b_URL (r_basic r))
     then (if b_Username (r_basic r) \<noteq> [] \<or> b_Password (r_basic r) \<noteq> []
           then SetBasicAuth req (b_Username (r_basic r)) (b_Password (r_basic r)) else req)
     else req)"
  have eq: "Registry_RoundTrip lib srv r req sent = tokenAuth_RoundTrip lib srv (r_token r) req' sent"
    by (simp add: Registry_RoundTrip_def basicAuth_RoundTrip_def req'_def)
  have same: "Method req' = Method req" "URL req' = URL req" "ReqBody req' = ReqBody req"
    "Header_Values (Header req') ''Content-Type'' = Header_Values (Header req) ''Content-Type''"
    by (simp_all add: req'_def SetBasicAuth_def Header_Values_Set)
  from tokenAuth_RoundTrip_shape [of lib srv "r_token r" req' sent]
  obtain extra where "snd (tokenAuth_RoundTrip lib srv (r_token r) req' sent) = sent @ req' # extra"
    and "\<forall>q\<in>set extra. Method q = ''GET'' \<or> Method q = Method req'"
    by auto
  with eq same show ?thesis by auto
qed

lemma sourceRequest_Method: "sourceRequest lib r repo oldTag = Inr q \<Longrightarrow> Method q = ''GET''"
  by (auto simp: sourceRequest_def NewRequest_def split: sum.splits)

section \<open>Claims about the transports and the registry client\<close>

text \<open>
  C1.  Claim: when the token exchange answers with a status other than 200, the Bearer
  Retry Transport returns that response and does not send the original request again.
  \<open>auth\<close> returns the response together with the \<open>nil\<close> error of \<open>client.Do\<close>, and
  \<open>authAndRetry\<close> hands the response back only under \<open>err != nil\<close>: so the response of
  the exchange is dropped, the original request is sent again with the header
  \<open>Authorization: Bearer \<close> and an empty token, and the reply to that request is the
  outcome.  Here the exchange is refused with 403 and the outcome is the 404 of the
  third round trip.
\<close>

theorem tokenAuth_RoundTrip_exchange_refused: 
  "tokenAuth_RoundTrip plain_lib
     (scripted [unauthorized [bearer_challenge], respond 403 ''403 Forbidden'' [] [],
                respond 404 ''404 Not Found'' [] []])
     anonymous manifest_get [] =
   (Returned (respond 404 ''404 Not Found'' [] []),
    [manifest_get, token_get, SetBearer manifest_get []])"
  by code_simp

text \<open>
  C4.  For every request the Bearer Retry Transport sends the request, then at most one
  further GET (the token exchange), then at most one copy of the request with the bearer
  token set; and when it has sent that copy, its outcome is the reply to the copy,
  whatever its status.
\<close>

theorem tokenAuth_RoundTrip_single_retry:
  "\<exists>extra. snd (tokenAuth_RoundTrip lib srv t req sent) = sent @ req # extra \<and>
     (extra = [] \<or> (\<exists>a. Method a = ''GET'' \<and> (extra = [a] \<or>
        (\<exists>token. extra = [a, SetBearer req token] \<and>
           fst (tokenAuth_RoundTrip lib srv t req sent) =
             Returned (srv (sent @ [req, a]) (SetBearer req token))))))"
  by (rule tokenAuth_RoundTrip_shape)

theorem tokenAuth_RoundTrip_single_retry_witness:
  "length (snd (tokenAuth_RoundTrip plain_lib
     (scripted [unauthorized [bearer_challenge], respond 200 ''200 OK'' [] ''abc123'',
                unauthorized [bearer_challenge]])
     anonymous manifest_get [])) \<le> 3
   \<and> tokenAuth_RoundTrip plain_lib
     (scripted [unauthorized [bearer_challenge], respond 200 ''200 OK'' [] ''abc123'',
                unauthorized [bearer_challenge]])
     anonymous manifest_get [] =
   (Returned (unauthorized [bearer_challenge]),
    [manifest_get, token_get, SetBearer manifest_get ''abc123''])"
proof
  show "length (snd (tokenAuth_RoundTrip plain_lib
     (scripted [unauthorized [bearer_challenge], respond 200 ''200 OK'' [] ''abc123'',
                unauthorized [bearer_challenge]])
     anonymous manifest_get [])) \<le> 3"
    using tokenAuth_RoundTrip_single_retry [of plain_lib
        "scripted [unauthorized [bearer_challenge], respond 200 ''200 OK'' [] ''abc123'',
                   unauthorized [bearer_challenge]]" anonymous manifest_get "[]"]
    by auto
next
  show "tokenAuth_RoundTrip plain_lib
     (scripted [unauthorized [bearer_challenge], respond 200 ''200 OK'' [] ''abc123'',
                unauthorized [bearer_challenge]])
     anonymous manifest_get [] =
   (Returned (unauthorized [bearer_challenge]),
    [manifest_get, token_get, SetBearer manifest_get ''abc123''])"
    by code_simp
qed

text \<open>
  C5.  The Basic-Auth Injector: a request whose URL has the registry base URL as a prefix
  is forwarded with the header \<open>Authorization: Basic base64(username:password)\<close> when the
  user name or the password is non-empty; a request whose URL does not have that prefix
  is forwarded as it is.
\<close>

theorem basicAuth_RoundTrip_prefix_only:
  "(HasPrefix (URL req) (b_URL b) \<and> (b_Username b \<noteq> [] \<or> b_Password b \<noteq> []) \<longrightarrow>
      basicAuth_RoundTrip wrapped b req w =
        wrapped (SetBasicAuth req (b_Username b) (b_Password b)) w
      \<and> Header_Values (Header (SetBasicAuth req (b_Username b) (b_Password b))) ''Authorization'' =
          [''Basic '' @ base64_EncodeToString (b_Username b @ '':'' @ b_Password b)]
      \<and> Method (SetBasicAuth req (b_Username b) (b_Password b)) = Method req
      \<and> URL (SetBasicAuth req (b_Username b) (b_Password b)) = URL req
      \<and> ReqBody (SetBasicAuth req (b_Username b) (b_Password b)) = ReqBody req)
   \<and> (\<not> HasPrefix (URL req) (b_URL b) \<longrightarrow> basicAuth_RoundTrip wrapped b req w = wrapped req w)"
  by (simp add: basicAuth_RoundTrip_def SetBasicAuth_def Header_Values_Set)

theorem basicAuth_RoundTrip_prefix_only_witness:
  "basicAuth_RoundTrip (base_RoundTrip (scripted [])) (r_basic registry) manifest_get [] =
     base_RoundTrip (scripted []) (SetBasicAuth manifest_get ''user'' ''pass'') []
   \<and> Header_Values (Header (SetBasicAuth manifest_get ''user'' ''pass'')) ''Authorization'' =
       [''Basic dXNlcjpwYXNz'']
   \<and> basicAuth_RoundTrip (base_RoundTrip (scripted [])) (r_basic registry) token_get [] =
     base_RoundTrip (scripted []) token_get []"
proof -
  have 1: "HasPrefix (URL manifest_get) (b_URL (r_basic registry))"
    by code_simp
  have 2: "b_Username (r_basic registry) = ''user''" "b_Password (r_basic registry) = ''pass''"
    by (simp_all add: registry_def NewRegistry_def)
  have 3: "\<not> HasPrefix (URL token_get) (b_URL (r_basic registry))"
    by code_simp
  have 4: "base64_EncodeToString (''user'' @ '':'' @ ''pass'') = ''dXNlcjpwYXNz''"
    by code_simp
  from basicAuth_RoundTrip_prefix_only
    [of manifest_get "r_basic registry" "base_RoundTrip (scripted [])" "[]"]
    basicAuth_RoundTrip_prefix_only
    [of token_get "r_basic registry" "base_RoundTrip (scripted [])" "[]"]
    1 2 3 4
  show ?thesis by simp
qed

text \<open>
  C7.  Claim: a 401 response that carries no bearer challenge, for example only malformed
  header values, is returned as it is.  For the malformed value \<open>Basic realm="\abc\<close> the
  Challenge Parser panics (see C3), and the panic leaves \<open>RoundTrip\<close>: no response is
  returned.  Whenever the parser returns and finds no bearer challenge the 401 is
  returned unchanged and nothing more is sent (\<open>tokenAuth_RoundTrip_no_bearer\<close>, and
  \<open>tokenAuth_RoundTrip_basic_only\<close> for the header \<open>Basic realm="x"\<close>).
\<close>

theorem tokenAuth_RoundTrip_malformed_challenge_panics:
  "tokenAuth_RoundTrip plain_lib
     (scripted [unauthorized [''Basic realm='' @ [dquote, backslash] @ ''abc'']])
     anonymous manifest_get [] =
   (Panicked IndexOutOfRange, [manifest_get])"
  by code_simp

text \<open>
  C8.  When the response to the manifest GET has a status other than 200, \<open>ReTag\<close> fails
  with \<open>HttpError\<close> of that response's status text and the URL of the GET, and every
  request sent was a GET: no PUT is issued.
\<close>

theorem ReTag_source_not_OK:
  assumes "sourceRequest lib r repo oldTag = Inr sourceReq"
    and "Client_Do (Registry_RoundTrip lib srv r) sourceReq sent = (Returned (Inr sourceResp), sent1)"
    and "StatusCode sourceResp \<noteq> 200"
  shows "ReTag lib srv r repo oldTag newTag sent =
           (Returned (Some (HttpError (Status sourceResp) (Registry_url r repo oldTag))), sent1)
         \<and> (\<exists>extra. sent1 = sent @ extra \<and> (\<forall>q\<in>set extra. Method q = ''GET''))"
proof
  from assms show "ReTag lib srv r repo oldTag newTag sent =
           (Returned (Some (HttpError (Status sourceResp) (Registry_url r repo oldTag))), sent1)"
    by (simp add: ReTag_def)
next
  from assms(2) have "sent1 = snd (Registry_RoundTrip lib srv r sourceReq sent)"
    using snd_Client_Do [of "Registry_RoundTrip lib srv r" sourceReq sent] by simp
  with Registry_RoundTrip_trace [of lib srv r sourceReq sent] sourceRequest_Method [OF assms(1)]
  show "\<exists>extra. sent1 = sent @ extra \<and> (\<forall>q\<in>set extra. Method q = ''GET'')"
    by auto
qed

theorem ReTag_source_not_OK_witness:
  "ReTag plain_lib (scripted [respond 404 ''404 Not Found'' [] []]) registry
     ''acme/widget'' ''1.0.0'' ''1.0.1'' [] =
   (Returned (Some (HttpError ''404 Not Found''
      ''https://registry.example/v2/acme/widget/manifests/1.0.0'')),
    [SetBasicAuth source_get ''user'' ''pass''])"
proof -
  let ?resp = "\<lparr>StatusCode = 404, Status = ''404 Not Found'', RespHeader = [], Body = Inr []\<rparr>"
  have 1: "sourceRequest plain_lib registry ''acme/widget'' ''1.0.0'' = Inr source_get"
    by code_simp
  have 2: "Client_Do (Registry_RoundTrip plain_lib (scripted [respond 404 ''404 Not Found'' [] []])
             registry) source_get [] =
           (Returned (Inr ?resp), [SetBasicAuth source_get ''user'' ''pass''])"
    by code_simp
  have 3: "StatusCode ?resp \<noteq> 200"
    by simp
  have 4: "Registry_url registry ''acme/widget'' ''1.0.0'' =
           ''https://registry.example/v2/acme/widget/manifests/1.0.0''"
    by code_simp
  from ReTag_source_not_OK [OF 1 2 3, of "''1.0.1''"] 4
  show ?thesis by simp
qed

text \<open>
  C9.  After a manifest GET answered with status 200 and a body that could be read, the
  next request sent is a PUT to the URL of the new tag whose body is exactly the bytes of
  that body and whose \<open>Content-Type\<close> is the \<open>Content-Type\<close> of the GET response.
\<close>

theorem ReTag_put_copies_manifest:
  assumes "sourceRequest lib r repo oldTag = Inr sourceReq"
    and "Client_Do (Registry_RoundTrip lib srv r) sourceReq sent = (Returned (Inr sourceResp), sent1)"
    and "StatusCode sourceResp = 200"
    and "Body sourceResp = Inr manifest"
    and "url_Parse lib (Registry_url r repo newTag) = Inr u"
  shows "\<exists>put rest. snd (ReTag lib srv r repo oldTag newTag sent) = sent1 @ put # rest \<and>
           Method put = ''PUT'' \<and> URL put = u \<and> ReqBody put = Some manifest \<and>
           Header_Get (Header put) ''Content-Type'' =
             Header_Get (RespHeader sourceResp) ''Content-Type'' \<and>
           Header_Values (Header put) ''Content-Type'' =
             [Header_Get (RespHeader sourceResp) ''Content-Type'']"
proof -
  define destReq where "destReq =
    \<lparr>Method = ''PUT'', URL = u,
     Header = Header_Set [] ''Content-Type'' (Header_Get (RespHeader sourceResp) ''Content-Type''),
     ReqBody = Some manifest\<rparr>"
  have d: "destRequest lib r repo newTag (Header_Get (RespHeader sourceResp) ''Content-Type'') manifest
           = Inr destReq"
    using assms(5) by (simp add: destRequest_def NewRequest_def destReq_def)
  have "ReTag lib srv r repo oldTag newTag sent =
        (case Client_Do (Registry_RoundTrip lib srv r) destReq sent1 of
           (Panicked p, sent2) \<Rightarrow> (Panicked p, sent2)
         | (Returned (Inl e), sent2) \<Rightarrow> (Returned (Some e), sent2)
         | (Returned (Inr destResp), sent2) \<Rightarrow>
             if StatusCode destResp \<noteq> 201
             then (Returned (Some (HttpError (Status destResp) (Registry_url r repo newTag))), sent2)
             else (Returned None, sent2))"
    using assms(1-4) d by (simp add: ReTag_def)
  then have "snd (ReTag lib srv r repo oldTag newTag sent) =
             snd (Client_Do (Registry_RoundTrip lib srv r) destReq sent1)"
    by (simp split: prod.splits outcome.splits sum.splits)
  then have "snd (ReTag lib srv r repo oldTag newTag sent) =
             snd (Registry_RoundTrip lib srv r destReq sent1)"
    by (simp add: snd_Client_Do)
  with Registry_RoundTrip_trace [of lib srv r destReq sent1]
  show ?thesis
    by (auto simp: destReq_def Header_Values_Set Header_Get_def)
qed

theorem ReTag_put_copies_manifest_witness:
  "(\<exists>put rest.
      snd (ReTag plain_lib
        (scripted [respond 200 ''200 OK'' [(''Content-Type'', [dockerManifestV2MIME])] ''{manifest}'',
                   respond 201 ''201 Created'' [] []])
        registry ''acme/widget'' ''1.0.0'' ''1.0.1'' []) =
        [SetBasicAuth source_get ''user'' ''pass''] @ put # rest \<and>
      Method put = ''PUT'' \<and>
      URL put = ''https://registry.example/v2/acme/widget/manifests/1.0.1'' \<and>
      ReqBody put = Some ''{manifest}'' \<and>
      Header_Get (Header put) ''Content-Type'' = dockerManifestV2MIME \<and>
      Header_Values (Header put) ''Content-Type'' = [dockerManifestV2MIME])
   \<and> ReTag plain_lib
        (scripted [respond 200 ''200 OK'' [(''Content-Type'', [dockerManifestV2MIME])] ''{manifest}'',
                   respond 201 ''201 Created'' [] []])
        registry ''acme/widget'' ''1.0.0'' ''1.0.1'' [] =
      (Returned None,
       [SetBasicAuth source_get ''user'' ''pass'',
        SetBasicAuth (dest_put ''{manifest}'') ''user'' ''pass''])"
proof
  let ?srv = "scripted [respond 200 ''200 OK'' [(''Content-Type'', [dockerManifestV2MIME])] ''{manifest}'',
                   respond 201 ''201 Created'' [] []]"
  let ?resp = "\<lparr>StatusCode = 200, Status = ''200 OK'',
                 RespHeader = [(''Content-Type'', [dockerManifestV2MIME])],
                 Body = Inr ''{manifest}''\<rparr>"
  have 1: "sourceRequest plain_lib registry ''acme/widget'' ''1.0.0'' = Inr source_get"
    by code_simp
  have 2: "Client_Do (Registry_RoundTrip plain_lib ?srv registry) source_get [] =
           (Returned (Inr ?resp), [SetBasicAuth source_get ''user'' ''pass''])"
    by code_simp
  have 3: "StatusCode ?resp = 200" "Body ?resp = Inr ''{manifest}''"
    by simp_all
  have 4: "url_Parse plain_lib (Registry_url registry ''acme/widget'' ''1.0.1'') =
           Inr ''https://registry.example/v2/acme/widget/manifests/1.0.1''"
    by code_simp
  have 5: "Header_Get (RespHeader ?resp) ''Content-Type'' = dockerManifestV2MIME"
    by (simp add: Header_Get_def Header_Values_def)
  from ReTag_put_copies_manifest [OF 1 2 3 4] 5
  show "\<exists>put rest.
      snd (ReTag plain_lib ?srv registry ''acme/widget'' ''1.0.0'' ''1.0.1'' []) =
        [SetBasicAuth source_get ''user'' ''pass''] @ put # rest \<and>
      Method put = ''PUT'' \<and>
      URL put = ''https://registry.example/v2/acme/widget/manifests/1.0.1'' \<and>
      ReqBody put = Some ''{manifest}'' \<and>
      Header_Get (Header put) ''Content-Type'' = dockerManifestV2MIME \<and>
      Header_Values (Header put) ''Content-Type'' = [dockerManifestV2MIME]"
    by simp
next
  show "ReTag plain_lib
        (scripted [respond 200 ''200 OK'' [(''Content-Type'', [dockerManifestV2MIME])] ''{manifest}'',
                   respond 201 ''201 Created'' [] []])
        registry ''acme/widget'' ''1.0.0'' ''1.0.1'' [] =
      (Returned None,
       [SetBasicAuth source_get ''user'' ''pass'',
        SetBasicAuth (dest_put ''{manifest}'') ''user'' ''pass''])"
    by code_simp
qed

end
